theory Spec2Isabelle
  imports Main "HOL-Library.Word"
begin

unbundle bit_operations_syntax

section \<open>Data model of the SSD1306 driver (ssd1306.h)\<close>

type_synonym uint8_t = "8 word"
type_synonym uint16_t = "16 word"
type_synonym uint32_t = "32 word"
type_synonym int32_t = "32 word"

text \<open>
  The driver is C for the Raspberry Pi Pico (32-bit ARM): \<open>int\<close>, \<open>long\<close> and \<open>size_t\<close>
  are 32 bits wide and \<open>char\<close> is unsigned. Every integer is a word of its declared
  width; \<open>int32_t\<close> values are 32-bit words read with \<open>sint\<close> and compared with the signed
  orders \<open><s\<close> and \<open>\<le>s\<close>.

  Behaviour that C leaves undefined is a value of type \<open>fault\<close>: an access outside the
  modelled array, the use of a local that no branch of a switch assigned, an overflowing
  signed operation, and reaching \<open>__builtin_unreachable\<close>.
\<close>

datatype fault = OutOfBounds | Uninitialised | SignedOverflow | Unreachable

text \<open>
  \<open>ssd1306_t\<close>, field by field. \<open>buffer\<close> is the pixel area the field \<open>buffer\<close> points to
  (the allocation without its reserved leading byte); \<open>i2c_i\<close> is the opaque bus handle.
\<close>

record ssd1306_t =
  width :: uint8_t
  height :: uint8_t
  pages :: uint8_t
  address :: uint8_t
  i2c_i :: nat
  external_vcc :: bool
  buffer :: "uint8_t list"
  bufsize :: uint32_t
  rotation :: uint8_t

section \<open>Rotation and the pixel primitives\<close>

text \<open>\<open>ssd1306_set_rotation\<close> (ssd1306.c, line 230).\<close>

definition ssd1306_set_rotation :: "ssd1306_t \<Rightarrow> uint8_t \<Rightarrow> ssd1306_t" where
  "ssd1306_set_rotation p r = (if r > 3 then p else p\<lparr>rotation := r\<rparr>)"

text \<open>
  The \<open>switch (p->rotation)\<close> that opens both \<open>ssd1306_clear_pixel\<close> (line 257) and
  \<open>ssd1306_draw_pixel\<close> (line 315): the pair \<open>(buffer_x, buffer_y)\<close>. The operands are
  promoted to \<open>uint32_t\<close> by the presence of \<open>x\<close> or \<open>y\<close>, so the subtractions wrap.
  The switch has no default: for any other rotation both locals stay unassigned.
\<close>

definition buffer_xy :: "ssd1306_t \<Rightarrow> uint32_t \<Rightarrow> uint32_t \<Rightarrow> fault + (uint32_t \<times> uint32_t)" where
  "buffer_xy p x y =
     (if rotation p = 0 then Inr (x, y)
      else if rotation p = 1 then Inr (ucast (height p) - 1 - y + ucast (width p) div 2, x)
      else if rotation p = 2 then Inr (ucast (width p) - 1 - x, ucast (height p) - 1 - y)
      else if rotation p = 3 then Inr (y, ucast (height p) - 1 - x)
      else Inl Uninitialised)"

text \<open>The index expression \<open>buffer_x + p->width * (buffer_y >> 3)\<close>, in \<open>uint32_t\<close>.\<close>

definition byte_index :: "ssd1306_t \<Rightarrow> uint32_t \<Rightarrow> uint32_t \<Rightarrow> uint32_t" where
  "byte_index p px py = px + ucast (width p) * drop_bit 3 py"

text \<open>
  The two compound assignments on a buffer byte. The byte is promoted to \<open>int\<close>, combined
  with the 32-bit mask and converted back to \<open>uint8_t\<close>.
\<close>

definition set_bit_byte :: "uint8_t \<Rightarrow> uint32_t \<Rightarrow> uint8_t" where
  "set_bit_byte b py = ucast ((ucast b :: uint32_t) OR push_bit (unat (py AND 7)) 1)"

definition clear_bit_byte :: "uint8_t \<Rightarrow> uint32_t \<Rightarrow> uint8_t" where
  "clear_bit_byte b py = ucast ((ucast b :: uint32_t) AND NOT (push_bit (unat (py AND 7)) 1))"

text \<open>\<open>ssd1306_clear_pixel\<close> (line 255).\<close>

definition ssd1306_clear_pixel :: "ssd1306_t \<Rightarrow> uint32_t \<Rightarrow> uint32_t \<Rightarrow> fault + ssd1306_t" where
  "ssd1306_clear_pixel p x y =
     (case buffer_xy p x y of
        Inl e \<Rightarrow> Inl e
      | Inr (px, py) \<Rightarrow>
          if px < ucast (width p) \<and> py < ucast (height p) then
            (let k = unat (byte_index p px py) in
             if k < length (buffer p)
             then Inr (p\<lparr>buffer := (buffer p)[k := clear_bit_byte (buffer p ! k) py]\<rparr>)
             else Inl OutOfBounds)
          else Inr p)"

text \<open>\<open>ssd1306_draw_pixel\<close> (line 313).\<close>

definition ssd1306_draw_pixel :: "ssd1306_t \<Rightarrow> uint32_t \<Rightarrow> uint32_t \<Rightarrow> fault + ssd1306_t" where
  "ssd1306_draw_pixel p x y =
     (case buffer_xy p x y of
        Inl e \<Rightarrow> Inl e
      | Inr (px, py) \<Rightarrow>
          if px < ucast (width p) \<and> py < ucast (height p) then
            (let k = unat (byte_index p px py) in
             if k < length (buffer p)
             then Inr (p\<lparr>buffer := (buffer p)[k := set_bit_byte (buffer p ! k) py]\<rparr>)
             else Inl OutOfBounds)
          else Inr p)"

section \<open>Sequencing and loops\<close>

text \<open>Statements in sequence: a fault ends the run, as undefined behaviour ends the C run.\<close>

definition and_then :: "fault + 'a \<Rightarrow> ('a \<Rightarrow> fault + 'b) \<Rightarrow> fault + 'b" where
  "and_then r f = (case r of Inl e \<Rightarrow> Inl e | Inr v \<Rightarrow> f v)"

text \<open>Reading element \<open>k\<close> of a byte array that the caller supplied.\<close>

definition rd :: "uint8_t list \<Rightarrow> nat \<Rightarrow> fault + uint8_t" where
  "rd data k = (if k < length data then Inr (data ! k) else Inl OutOfBounds)"

text \<open>
  \<open>for (T i = i0; i < n; ++i) body\<close> with an unsigned counter. The increment cannot wrap,
  because it only runs when \<open>i < n\<close>.
\<close>

function for_lt :: "'a::len word \<Rightarrow> 'a word \<Rightarrow> ('a word \<Rightarrow> 's \<Rightarrow> fault + 's) \<Rightarrow> 's \<Rightarrow> fault + 's" where
  "for_lt i n body s =
     (if i < n then (case body i s of Inl e \<Rightarrow> Inl e | Inr s' \<Rightarrow> for_lt (i + 1) n body s')
      else Inr s)"
  by pat_completeness auto
termination
proof (relation "measure (\<lambda>(i, n, body, s). unat n - unat i)")
  show "wf (measure (\<lambda>(i :: 'a word, n, body :: 'a word \<Rightarrow> 's \<Rightarrow> fault + 's, s). unat n - unat i))"
    by simp
next
  fix i n :: "'a word" and body :: "'a word \<Rightarrow> 's \<Rightarrow> fault + 's" and s x2 :: 's
  assume "i < n"
  then have less: "unat i < unat n"
    by (simp add: word_less_nat_alt)
  moreover have "unat n < 2 ^ LENGTH('a)"
    by (rule unsigned_less)
  ultimately have "unat i + 1 < 2 ^ LENGTH('a)"
    by linarith
  then have "unat (i + 1) = unat i + 1"
    by (simp add: unat_word_ariths)
  with less show "((i + 1, n, body, x2), (i, n, body, s)) \<in> measure (\<lambda>(i, n, body, s). unat n - unat i)"
    by simp
qed

declare for_lt.simps [simp del]

text \<open>
  \<open>for (int32_t i = i0; i <= n; ++i) body\<close>. After the body has run at \<open>INT32_MAX\<close> the
  increment overflows a signed integer.
\<close>

function for_le_s32 :: "int32_t \<Rightarrow> int32_t \<Rightarrow> (int32_t \<Rightarrow> 's \<Rightarrow> fault + 's) \<Rightarrow> 's \<Rightarrow> fault + 's" where
  "for_le_s32 i n body s =
     (if i \<le>s n then
        (case body i s of
           Inl e \<Rightarrow> Inl e
         | Inr s' \<Rightarrow> if i = 0x7FFFFFFF then Inl SignedOverflow else for_le_s32 (i + 1) n body s')
      else Inr s)"
  by pat_completeness auto
termination
proof (relation "measure (\<lambda>(i, n, body, s). nat (sint n - sint i + 1))")
  show "wf (measure (\<lambda>(i :: int32_t, n :: int32_t, body :: int32_t \<Rightarrow> 's \<Rightarrow> fault + 's, s). nat (sint n - sint i + 1)))"
    by simp
next
  fix i n :: int32_t and body :: "int32_t \<Rightarrow> 's \<Rightarrow> fault + 's" and s x2 :: 's
  assume le: "i \<le>s n" and ne: "i \<noteq> 0x7FFFFFFF"
  from le have le': "sint i \<le> sint n"
    by (simp add: word_sle_eq)
  have r: "sint i < 2 ^ 31" "- (2 ^ 31) \<le> sint i"
    using sint_lt [of i] sint_ge [of i] by simp_all
  have "sint i \<noteq> 2 ^ 31 - 1"
  proof
    assume "sint i = 2 ^ 31 - 1"
    then have "sint i = sint (0x7FFFFFFF :: 32 word)" by simp
    then show False using ne signed_word_eqI by blast
  qed
  with r have "sint i + 1 < 2 ^ 31" "- (2 ^ 31) \<le> sint i + 1" by simp_all
  then have "signed_take_bit 31 (sint i + 1) = sint i + 1"
    by (simp add: signed_take_bit_int_eq_self)
  then have "sint (i + 1) = sint i + 1"
    by (simp add: sint_word_ariths)
  with le' show "((i + 1, n, body, x2), (i, n, body, s)) \<in> measure (\<lambda>(i, n, body, s). nat (sint n - sint i + 1))"
    by simp
qed

declare for_le_s32.simps [simp del]

text \<open>
  \<open>for (uint32_t y = y0; y != border; y += step) body\<close> of the bitmap decoder, where
  \<open>step\<close> is \<open>-1\<close> (\<open>down\<close>) or \<open>1\<close>. The counter wraps, and reaches \<open>border\<close> after at most
  \<open>2^32 - 1\<close> steps.
\<close>

function for_ne :: "bool \<Rightarrow> uint32_t \<Rightarrow> uint32_t \<Rightarrow> (uint32_t \<Rightarrow> 's \<Rightarrow> fault + 's) \<Rightarrow> 's \<Rightarrow> fault + 's" where
  "for_ne down y border body s =
     (if y \<noteq> border then
        (case body y s of
           Inl e \<Rightarrow> Inl e
         | Inr s' \<Rightarrow> for_ne down (if down then y - 1 else y + 1) border body s')
      else Inr s)"
  by pat_completeness auto
termination
proof (relation "measure (\<lambda>(down, y, border, body, s). if down then unat (y - border) else unat (border - y))")
  show "wf (measure (\<lambda>(down, y :: uint32_t, border :: uint32_t, body :: uint32_t \<Rightarrow> 's \<Rightarrow> fault + 's, s).
               if down then unat (y - border) else unat (border - y)))"
    by simp
next
  fix down :: bool and y border :: uint32_t and body :: "uint32_t \<Rightarrow> 's \<Rightarrow> fault + 's" and s x2 :: 's
  assume ne: "y \<noteq> border"
  have dec: "unat (w - 1) < unat w" if "w \<noteq> 0" for w :: uint32_t
    using that by (simp add: unat_minus_one unat_gt_0)
  have "y - 1 - border = (y - border) - 1" "border - (y + 1) = (border - y) - 1"
    by simp_all
  moreover have "y - border \<noteq> 0" "border - y \<noteq> 0"
    using ne by simp_all
  ultimately have "unat (y - 1 - border) < unat (y - border)" "unat (border - (y + 1)) < unat (border - y)"
    using dec by metis+
  then show "((down, if down then y - 1 else y + 1, border, body, x2), (down, y, border, body, s))
      \<in> measure (\<lambda>(down, y, border, body, s). if down then unat (y - border) else unat (border - y))"
    by simp
qed

declare for_ne.simps [simp del]

section \<open>Initialisation and bulk clear\<close>

text \<open>
  \<open>ssd1306_init\<close> (line 78). The arguments are 16 bits wide and the fields 8 bits: each
  assignment converts. \<open>malloc\<close> is the parameter \<open>alloc\<close>: \<open>None\<close> when it returns
  \<open>NULL\<close>, otherwise the (indeterminate) contents of the fresh block by offset; the
  pixel area starts at offset 1. The bring-up commands that follow go to the bus and leave
  the struct as it is; \<open>ssd1306_init_cmds\<close> lists them, each sent as the pair \<open>{0x00, cmd}\<close>.
\<close>

definition ssd1306_init_cmds :: "ssd1306_t \<Rightarrow> uint16_t \<Rightarrow> uint16_t \<Rightarrow> uint8_t list" where
  "ssd1306_init_cmds p w h =
     [0xAE, 0xD5, 0x80, 0xA8, ucast (h - 1), 0xD3, 0x00, 0x40, 0x8D,
      (if external_vcc p then 0x10 else 0x14), 0xA0 OR 0x01, 0xC0 OR 0x08, 0xDA,
      (if unat w > 2 * unat h then 0x02 else 0x12), 0x81, 0xFF, 0xD9,
      (if external_vcc p then 0x22 else 0xF1), 0xDB, 0x30, 0xA4, 0xA6, 0xAE OR 0x01, 0x20, 0x00]"

definition ssd1306_init ::
  "ssd1306_t \<Rightarrow> uint16_t \<Rightarrow> uint16_t \<Rightarrow> uint8_t \<Rightarrow> nat \<Rightarrow> (nat \<Rightarrow> uint8_t) option \<Rightarrow> bool \<times> ssd1306_t" where
  "ssd1306_init p w h addr i2c_instance alloc =
     (let p1 = p\<lparr>width := ucast w, height := ucast h, pages := ucast (h div 8),
                  address := addr, i2c_i := i2c_instance\<rparr>;
          p2 = p1\<lparr>bufsize := ucast (pages p1) * ucast (width p1)\<rparr>
      in case alloc of
           None \<Rightarrow> (False, p2\<lparr>buffer := [], bufsize := 0\<rparr>)
         | Some block \<Rightarrow> (True, p2\<lparr>buffer := map (\<lambda>k. block (k + 1)) [0..<unat (bufsize p2)]\<rparr>))"

text \<open>\<open>ssd1306_clear\<close> (line 244): \<open>memset\<close> over the first \<open>bufsize\<close> bytes.\<close>

definition ssd1306_clear :: "ssd1306_t \<Rightarrow> fault + ssd1306_t" where
  "ssd1306_clear p =
     (if unat (bufsize p) \<le> length (buffer p)
      then Inr (p\<lparr>buffer := replicate (unat (bufsize p)) 0 @ drop (unat (bufsize p)) (buffer p)\<rparr>)
      else Inl OutOfBounds)"

section \<open>Lines\<close>

text \<open>
  \<open>swap\<close> (line 25) works through pointers, so the locals of its caller are a store from
  addresses to values. The temporary \<open>t\<close> is declared \<open>int32_t *\<close> and initialised with
  \<open>a\<close>: it holds the address, not the value.
\<close>

definition swap :: "'addr \<Rightarrow> 'addr \<Rightarrow> ('addr \<Rightarrow> int32_t) \<Rightarrow> ('addr \<Rightarrow> int32_t)" where
  "swap a b m =
     (let t = a;
          m1 = m(a := m b);
          m2 = m1(b := m1 t)
      in m2)"

datatype line_local = X1 | Y1 | X2 | Y2

definition line_locals :: "int32_t \<Rightarrow> int32_t \<Rightarrow> int32_t \<Rightarrow> int32_t \<Rightarrow> line_local \<Rightarrow> int32_t" where
  "line_locals x1 y1 x2 y2 v = (case v of X1 \<Rightarrow> x1 | Y1 \<Rightarrow> y1 | X2 \<Rightarrow> x2 | Y2 \<Rightarrow> y2)"

text \<open>
  \<open>ssd1306_draw_line\<close> (line 348). The sloped branch computes its row in \<open>float\<close>:
  \<open>(uint32_t) (m * (float) (i - x1) + (float) y1)\<close> with
  \<open>m = (float) (y2 - y1) / (float) (x2 - x1)\<close>. Binary floating point is outside this
  development, so that expression is the parameter \<open>row\<close>, a function of the four locals
  and the column \<open>i\<close> about which nothing is assumed; it may fault (the conversion of a
  negative or huge \<open>float\<close> to \<open>uint32_t\<close> is undefined).
\<close>

type_synonym line_row = "int32_t \<Rightarrow> int32_t \<Rightarrow> int32_t \<Rightarrow> int32_t \<Rightarrow> int32_t \<Rightarrow> fault + uint32_t"

definition ssd1306_draw_line ::
  "line_row \<Rightarrow> ssd1306_t \<Rightarrow> int32_t \<Rightarrow> int32_t \<Rightarrow> int32_t \<Rightarrow> int32_t \<Rightarrow> fault + ssd1306_t" where
  "ssd1306_draw_line row p x1 y1 x2 y2 =
     (let m0 = line_locals x1 y1 x2 y2;
          m1 = (if m0 X2 <s m0 X1 then swap Y1 Y2 (swap X1 X2 m0) else m0)
      in if m1 X1 = m1 X2 then
           (let m2 = (if m1 Y2 <s m1 Y1 then swap Y1 Y2 m1 else m1)
            in for_le_s32 (m2 Y1) (m2 Y2) (\<lambda>i q. ssd1306_draw_pixel q (m2 X1) i) p)
         else
           for_le_s32 (m1 X1) (m1 X2)
             (\<lambda>i q. and_then (row (m1 X1) (m1 Y1) (m1 X2) (m1 Y2) i) (\<lambda>y. ssd1306_draw_pixel q i y)) p)"

section \<open>Rectangles and circles\<close>

text \<open>\<open>ssd1306_clear_square\<close> (line 379) and \<open>ssd1306_draw_square\<close> (line 394).\<close>

definition ssd1306_clear_square ::
  "ssd1306_t \<Rightarrow> uint32_t \<Rightarrow> uint32_t \<Rightarrow> uint32_t \<Rightarrow> uint32_t \<Rightarrow> fault + ssd1306_t" where
  "ssd1306_clear_square p x y w h =
     for_lt 0 w (\<lambda>i. for_lt 0 h (\<lambda>j q. ssd1306_clear_pixel q (x + i) (y + j))) p"

definition ssd1306_draw_square ::
  "ssd1306_t \<Rightarrow> uint32_t \<Rightarrow> uint32_t \<Rightarrow> uint32_t \<Rightarrow> uint32_t \<Rightarrow> fault + ssd1306_t" where
  "ssd1306_draw_square p x y w h =
     for_lt 0 w (\<lambda>i. for_lt 0 h (\<lambda>j q. ssd1306_draw_pixel q (x + i) (y + j))) p"

text \<open>\<open>ssd1306_draw_empty_square\<close> (line 409): four lines.\<close>

definition ssd1306_draw_empty_square ::
  "line_row \<Rightarrow> ssd1306_t \<Rightarrow> uint32_t \<Rightarrow> uint32_t \<Rightarrow> uint32_t \<Rightarrow> uint32_t \<Rightarrow> fault + ssd1306_t" where
  "ssd1306_draw_empty_square row p x y w h =
     and_then (ssd1306_draw_line row p x y (x + w) y) (\<lambda>p1.
     and_then (ssd1306_draw_line row p1 x (y + h) (x + w) (y + h)) (\<lambda>p2.
     and_then (ssd1306_draw_line row p2 x y x (y + h)) (\<lambda>p3.
     ssd1306_draw_line row p3 (x + w) y (x + w) (y + h))))"

text \<open>
  The body of the inner loop of \<open>ssd1306_clear_circle\<close> (line 427) and of
  \<open>ssd1306_draw_circle\<close> (line 448), with the pixel primitive as \<open>pixel\<close>: the test in
  wrapping \<open>uint32_t\<close> arithmetic, then the four mirrored points in the order of the source.
\<close>

definition circle_body ::
  "(ssd1306_t \<Rightarrow> uint32_t \<Rightarrow> uint32_t \<Rightarrow> fault + ssd1306_t) \<Rightarrow>
   uint32_t \<Rightarrow> uint32_t \<Rightarrow> uint32_t \<Rightarrow> uint32_t \<Rightarrow> uint32_t \<Rightarrow> ssd1306_t \<Rightarrow> fault + ssd1306_t" where
  "circle_body pixel x y r i j p =
     (if i * i + j * j \<le> r * r then
        and_then (pixel p (x + i) (y + j)) (\<lambda>p1.
        and_then (pixel p1 (x + i) (y - j)) (\<lambda>p2.
        and_then (pixel p2 (x - i) (y + j)) (\<lambda>p3.
        pixel p3 (x - i) (y - j))))
      else Inr p)"

definition ssd1306_clear_circle :: "ssd1306_t \<Rightarrow> uint32_t \<Rightarrow> uint32_t \<Rightarrow> uint32_t \<Rightarrow> fault + ssd1306_t" where
  "ssd1306_clear_circle p x y r =
     for_lt 0 r (\<lambda>i. for_lt 0 r (\<lambda>j. circle_body ssd1306_clear_pixel x y r i j)) p"

definition ssd1306_draw_circle :: "ssd1306_t \<Rightarrow> uint32_t \<Rightarrow> uint32_t \<Rightarrow> uint32_t \<Rightarrow> fault + ssd1306_t" where
  "ssd1306_draw_circle p x y r =
     for_lt 0 r (\<lambda>i. for_lt 0 r (\<lambda>j. circle_body ssd1306_draw_pixel x y r i j)) p"

section \<open>Glyphs and strings\<close>

text \<open>
  A font is the byte array \<open>font\<close>; a character is an unsigned byte. The innermost loop of
  \<open>ssd1306_draw_char_with_font\<close> (line 478) carries \<open>line\<close>, shifted right once per
  round, next to the display.
\<close>

definition glyph_bits ::
  "uint32_t \<Rightarrow> uint32_t \<Rightarrow> uint32_t \<Rightarrow> uint8_t \<Rightarrow> uint32_t \<Rightarrow> uint8_t \<Rightarrow> ssd1306_t \<Rightarrow> fault + ssd1306_t" where
  "glyph_bits x y scale w lp line0 p =
     and_then
       (for_lt (0 :: uint8_t) 8
          (\<lambda>j (line, q).
             and_then
               (if line AND 1 \<noteq> 0
                then ssd1306_draw_square q (x + ucast w * scale) (y + (push_bit 3 lp + ucast j) * scale) scale scale
                else Inr q)
               (\<lambda>q'. Inr (drop_bit 1 line, q')))
          (line0, p))
       (\<lambda>(line, q). Inr q)"

text \<open>
  The loop over \<open>lp\<close> (line 475) carries the font index \<open>pp\<close> next to the display.
\<close>

definition glyph_column ::
  "uint32_t \<Rightarrow> uint32_t \<Rightarrow> uint32_t \<Rightarrow> uint8_t list \<Rightarrow> uint32_t \<Rightarrow> uint8_t \<Rightarrow> uint32_t \<Rightarrow> ssd1306_t \<Rightarrow> fault + ssd1306_t" where
  "glyph_column x y scale font parts_per_line w pp0 p =
     and_then
       (for_lt 0 parts_per_line
          (\<lambda>lp (pp, q).
             and_then (rd font (unat pp)) (\<lambda>line.
             and_then (glyph_bits x y scale w lp line q) (\<lambda>q'.
             Inr (pp + 1, q'))))
          (pp0, p))
       (\<lambda>(pp, q). Inr q)"

text \<open>
  \<open>ssd1306_draw_char_with_font\<close> (line 468). The operands of \<open>||\<close> are read left to right
  and the second only when the first is false.
\<close>

definition ssd1306_draw_char_with_font ::
  "ssd1306_t \<Rightarrow> uint32_t \<Rightarrow> uint32_t \<Rightarrow> uint32_t \<Rightarrow> uint8_t list \<Rightarrow> uint8_t \<Rightarrow> fault + ssd1306_t" where
  "ssd1306_draw_char_with_font p x y scale font c =
     and_then (rd font 3) (\<lambda>first.
     if c < first then Inr p
     else
       and_then (rd font 4) (\<lambda>last.
       if c > last then Inr p
       else
         and_then (rd font 0) (\<lambda>f0.
         and_then (rd font 1) (\<lambda>f1.
         (let parts_per_line = ucast (drop_bit 3 f0) + (if f0 AND 7 > 0 then 1 else 0 :: uint32_t)
          in for_lt 0 f1
               (\<lambda>w q. glyph_column x y scale font parts_per_line w
                         ((ucast c - ucast first) * ucast f1 * parts_per_line + ucast w * parts_per_line + 5) q)
               p)))))"

text \<open>
  \<open>ssd1306_draw_string_with_font\<close> (line 498). The string \<open>s\<close> is the list of the
  characters before the terminating NUL. The cursor \<open>x_n\<close> is an \<open>int32_t\<close> that is
  initialised from, added to and passed on as \<open>uint32_t\<close>: every step is arithmetic modulo
  \<open>2^32\<close>. The advance is evaluated after each character has been drawn.
\<close>

fun draw_string_from ::
  "ssd1306_t \<Rightarrow> int32_t \<Rightarrow> uint32_t \<Rightarrow> uint32_t \<Rightarrow> uint8_t list \<Rightarrow> uint8_t list \<Rightarrow> fault + ssd1306_t" where
  "draw_string_from p x_n y scale font [] = Inr p"
| "draw_string_from p x_n y scale font (c # s) =
     and_then (ssd1306_draw_char_with_font p x_n y scale font c) (\<lambda>p'.
     and_then (rd font 1) (\<lambda>f1.
     and_then (rd font 2) (\<lambda>f2.
     draw_string_from p' (x_n + (ucast f1 + ucast f2) * scale) y scale font s)))"

definition ssd1306_draw_string_with_font ::
  "ssd1306_t \<Rightarrow> uint32_t \<Rightarrow> uint32_t \<Rightarrow> uint32_t \<Rightarrow> uint8_t list \<Rightarrow> uint8_t list \<Rightarrow> fault + ssd1306_t" where
  "ssd1306_draw_string_with_font p x y scale font s = draw_string_from p x y scale font s"

section \<open>Monochrome bitmaps\<close>

text \<open>
  \<open>ssd1306_bmp_get_val\<close> (line 538): little-endian fields of 1, 2 or 4 bytes. The bytes
  are combined as \<open>int\<close> and returned as \<open>uint32_t\<close>.
\<close>

definition ssd1306_bmp_get_val :: "uint8_t list \<Rightarrow> nat \<Rightarrow> uint8_t \<Rightarrow> fault + uint32_t" where
  "ssd1306_bmp_get_val data offset sz =
     (if sz = 1 then
        and_then (rd data offset) (\<lambda>b0. Inr (ucast b0))
      else if sz = 2 then
        and_then (rd data offset) (\<lambda>b0.
        and_then (rd data (offset + 1)) (\<lambda>b1.
        Inr (ucast b0 OR push_bit 8 (ucast b1))))
      else if sz = 4 then
        and_then (rd data offset) (\<lambda>b0.
        and_then (rd data (offset + 1)) (\<lambda>b1.
        and_then (rd data (offset + 2)) (\<lambda>b2.
        and_then (rd data (offset + 3)) (\<lambda>b3.
        Inr (ucast b0 OR push_bit 8 (ucast b1) OR push_bit 16 (ucast b2) OR push_bit 24 (ucast b3))))))
      else Inl Unreachable)"

text \<open>
  Reading \<open>data[k]\<close> for a signed index, as the colour table is addressed from the
  \<open>int\<close> \<open>table_start\<close>.
\<close>

definition rd_int :: "uint8_t list \<Rightarrow> int \<Rightarrow> fault + uint8_t" where
  "rd_int data k = (if 0 \<le> k \<and> nat k < length data then Inr (data ! nat k) else Inl OutOfBounds)"

text \<open>The value tested in the colour-table loop (line 582) for entry \<open>i\<close>.\<close>

definition bmp_palette_entry :: "uint8_t list \<Rightarrow> int \<Rightarrow> int \<Rightarrow> fault + uint32_t" where
  "bmp_palette_entry data table_start i =
     and_then (rd_int data (table_start + i * 4)) (\<lambda>c0.
     and_then (rd_int data (table_start + i * 4 + 1)) (\<lambda>c1.
     and_then (rd_int data (table_start + i * 4 + 2)) (\<lambda>c2.
     Inr (push_bit 16 (ucast c0) OR push_bit 8 (ucast c1) OR ucast c2))))"

text \<open>
  The colour-table loop (line 581), its two rounds written out: the first black entry
  gives \<open>color_val\<close> and ends the loop; with no black entry \<open>color_val\<close> stays 0.
\<close>

definition bmp_color_val :: "uint8_t list \<Rightarrow> int \<Rightarrow> fault + uint8_t" where
  "bmp_color_val data table_start =
     and_then (bmp_palette_entry data table_start 0) (\<lambda>e0.
     if e0 = 0 then Inr 0
     else
       and_then (bmp_palette_entry data table_start 1) (\<lambda>e1.
       if e1 = 0 then Inr 1 else Inr 0))"

text \<open>
  One row of the image (line 598). \<open>img_data\<close> is the offset of the row in \<open>data\<close>.
\<close>

definition bmp_row ::
  "uint8_t list \<Rightarrow> uint32_t \<Rightarrow> uint8_t \<Rightarrow> uint32_t \<Rightarrow> uint32_t \<Rightarrow> nat \<Rightarrow> uint32_t \<Rightarrow> ssd1306_t \<Rightarrow> fault + ssd1306_t" where
  "bmp_row data biWidth color_val x_offset y_offset img_data y p =
     for_lt 0 biWidth
       (\<lambda>x q.
          and_then (rd data (img_data + unat (drop_bit 3 x))) (\<lambda>b.
          if drop_bit (7 - unat (x AND 7)) b AND 1 = color_val
          then ssd1306_draw_pixel q (x_offset + x) (y_offset + y)
          else Inr q))
       p"

text \<open>
  \<open>ssd1306_bmp_show_image_with_offset\<close> (line 561). \<open>sz\<close> is the \<open>long size\<close> the
  caller passes; the header is read from \<open>data\<close> whatever \<open>sz\<close> says. Negating the most negative
  \<open>biHeight\<close> overflows.
\<close>

definition ssd1306_bmp_show_image_with_offset ::
  "ssd1306_t \<Rightarrow> uint8_t list \<Rightarrow> int32_t \<Rightarrow> uint32_t \<Rightarrow> uint32_t \<Rightarrow> fault + ssd1306_t" where
  "ssd1306_bmp_show_image_with_offset p data sz x_offset y_offset =
     (if sz <s 54 then Inr p
      else
        and_then (ssd1306_bmp_get_val data 10 4) (\<lambda>bfOffBits.
        and_then (ssd1306_bmp_get_val data 14 4) (\<lambda>biSize.
        and_then (ssd1306_bmp_get_val data 18 4) (\<lambda>biWidth.
        and_then (ssd1306_bmp_get_val data 22 4) (\<lambda>biHeight.
        and_then (ssd1306_bmp_get_val data 28 2) (\<lambda>v28.
        and_then (ssd1306_bmp_get_val data 30 4) (\<lambda>biCompression.
        (let biBitCount = (ucast v28 :: uint16_t)
         in if biBitCount \<noteq> 1 then Inr p
            else if biCompression \<noteq> 0 then Inr p
            else
              and_then (bmp_color_val data (sint (14 + biSize))) (\<lambda>color_val.
              (let l0 = biWidth div 8 + (if biWidth AND 7 \<noteq> 0 then 1 else 0);
                   bytes_per_line = (if l0 AND 3 \<noteq> 0 then (l0 XOR (l0 AND 3)) + 4 else l0);
                   down = (0 <s biHeight)
               in if \<not> down \<and> biHeight = 0x80000000 then Inl SignedOverflow
                  else
                    and_then
                      (for_ne down (if down then biHeight - 1 else 0) (if down then - 1 else - biHeight)
                         (\<lambda>y (img_data, q).
                            and_then (bmp_row data biWidth color_val x_offset y_offset img_data y q) (\<lambda>q'.
                            Inr (img_data + unat bytes_per_line, q')))
                         (unat bfOffBits, p))
                      (\<lambda>(img_data, q). Inr q)))))))))))"

text \<open>\<open>ssd1306_bmp_show_image\<close> (line 613).\<close>

definition ssd1306_bmp_show_image :: "ssd1306_t \<Rightarrow> uint8_t list \<Rightarrow> int32_t \<Rightarrow> fault + ssd1306_t" where
  "ssd1306_bmp_show_image p data sz = ssd1306_bmp_show_image_with_offset p data sz 0 0"

section \<open>Observations and example displays\<close>

text \<open>
  The driver has no read accessor. \<open>pixel_at\<close> reads the bit of the physical position
  \<open>(px, py)\<close> the way the two pixel primitives address it; \<open>get_pixel\<close> reads a logical
  position through the rotation and is false where the primitives would not write.
\<close>

definition pixel_at :: "ssd1306_t \<Rightarrow> uint32_t \<Rightarrow> uint32_t \<Rightarrow> bool" where
  "pixel_at p px py = bit (buffer p ! unat (byte_index p px py)) (unat (py AND 7))"

definition get_pixel :: "ssd1306_t \<Rightarrow> uint32_t \<Rightarrow> uint32_t \<Rightarrow> bool" where
  "get_pixel p x y =
     (case buffer_xy p x y of
        Inl e \<Rightarrow> False
      | Inr (px, py) \<Rightarrow> px < ucast (width p) \<and> py < ucast (height p) \<and>
          unat (byte_index p px py) < length (buffer p) \<and> pixel_at p px py)"

text \<open>The pixel read after a drawing operation, when the operation returns.\<close>

definition lit :: "fault + ssd1306_t \<Rightarrow> uint32_t \<Rightarrow> uint32_t \<Rightarrow> fault + bool" where
  "lit r x y = (case r of Inl e \<Rightarrow> Inl e | Inr p \<Rightarrow> Inr (get_pixel p x y))"

text \<open>\<open>ssd1306_draw_pixel\<close> followed by \<open>ssd1306_clear_pixel\<close> at the same coordinates.\<close>

definition draw_then_clear :: "ssd1306_t \<Rightarrow> uint32_t \<Rightarrow> uint32_t \<Rightarrow> fault + ssd1306_t" where
  "draw_then_clear p x y = and_then (ssd1306_draw_pixel p x y) (\<lambda>p'. ssd1306_clear_pixel p' x y)"

text \<open>
  A display of the given width, height and rotation around the pixel area \<open>buf\<close>, with
  \<open>pages\<close> and \<open>bufsize\<close> as \<open>ssd1306_init\<close> computes them.
\<close>

definition oled :: "uint8_t \<Rightarrow> uint8_t \<Rightarrow> uint8_t \<Rightarrow> uint8_t list \<Rightarrow> ssd1306_t" where
  "oled w h r buf =
     \<lparr>width = w, height = h, pages = h div 8, address = 0x3C, i2c_i = 0, external_vcc = False,
      buffer = buf, bufsize = ucast (h div 8) * ucast w, rotation = r\<rparr>"

text \<open>
  The header fields of the bitmap container that gate the decoder, read directly from the
  bytes: the 2-byte bit depth at offset 28 and the 4-byte compression flag at offset 30.
\<close>

definition bmp_bit_count :: "uint8_t list \<Rightarrow> uint16_t" where
  "bmp_bit_count data = ucast (data ! 28) OR push_bit 8 (ucast (data ! 29))"

definition bmp_compression :: "uint8_t list \<Rightarrow> uint32_t" where
  "bmp_compression data =
     ucast (data ! 30) OR push_bit 8 (ucast (data ! 31)) OR push_bit 16 (ucast (data ! 32))
       OR push_bit 24 (ucast (data ! 33))"

text \<open>
  Drawing a list of characters, each at its own horizontal position, and the position of
  character number \<open>n\<close> of a string that starts at \<open>x\<close>: \<open>n\<close> advances of
  \<open>(font[1] + font[2]) * scale\<close>, in \<open>uint32_t\<close>.
\<close>

fun draw_chars_at ::
  "ssd1306_t \<Rightarrow> uint32_t \<Rightarrow> uint32_t \<Rightarrow> uint8_t list \<Rightarrow> (uint32_t \<times> uint8_t) list \<Rightarrow> fault + ssd1306_t" where
  "draw_chars_at p y scale font [] = Inr p"
| "draw_chars_at p y scale font ((xc, c) # rest) =
     and_then (ssd1306_draw_char_with_font p xc y scale font c) (\<lambda>p'.
     draw_chars_at p' y scale font rest)"

definition char_x :: "uint8_t list \<Rightarrow> uint32_t \<Rightarrow> uint32_t \<Rightarrow> nat \<Rightarrow> uint32_t" where
  "char_x font x scale n = x + of_nat n * ((ucast (font ! 1) + ucast (font ! 2)) * scale)"

definition string_positions :: "uint8_t list \<Rightarrow> uint32_t \<Rightarrow> uint32_t \<Rightarrow> uint8_t list \<Rightarrow> (uint32_t \<times> uint8_t) list" where
  "string_positions font x scale s = map (\<lambda>(n, c). (char_x font x scale n, c)) (enumerate 0 s)"

text \<open>A fresh block of zero bytes, for \<open>ssd1306_init\<close>.\<close>

definition zero_block :: "nat \<Rightarrow> uint8_t" where
  "zero_block k = 0"

section \<open>Word arithmetic of the byte index\<close>

lemma unat_byte_lt: "unat (b :: uint8_t) < 256"
  using unsigned_less [of b, where 'a = nat] by simp

lemma unat_ucast_8_32: "unat (ucast (b :: uint8_t) :: uint32_t) = unat b"
proof -
  have "unat b < 2 ^ 32"
    using unat_byte_lt [of b] by simp
  then show ?thesis
    by (simp add: unsigned_ucast_eq take_bit_nat_eq_self)
qed

lemma unat_drop_bit3: "unat (drop_bit 3 (w :: uint32_t)) = unat w div 8"
  by (simp add: unat_drop_bit_eq drop_bit_eq_div unat_div)

lemma unat_byte_index:
  assumes "py < ucast (height p)" "px < ucast (width p)"
  shows "unat (byte_index p px py) = unat px + unat (width p) * (unat py div 8)"
proof -
  have py: "unat py < unat (height p)" and px: "unat px < unat (width p)"
    using assms by (simp_all add: word_less_nat_alt unat_ucast_8_32)
  have h: "unat (height p) < 256" and w: "unat (width p) < 256"
    by (rule unat_byte_lt)+
  have q: "unat py div 8 < 32"
    using py h by linarith
  have prod: "unat (width p) * (unat py div 8) < 256 * 32"
    using w q by (meson mult_strict_mono' zero_le)
  then have m: "unat (ucast (width p) * drop_bit 3 py :: uint32_t) = unat (width p) * (unat py div 8)"
    by (simp add: unat_word_ariths unat_ucast_8_32 unat_drop_bit3)
  have "unat px + unat (width p) * (unat py div 8) < 2 ^ 32"
    using prod px w by simp
  then show ?thesis
    unfolding byte_index_def by (simp add: unat_word_ariths(1) m)
qed

lemma byte_index_bound:
  assumes geo: "unat (height p) mod 8 = 0" "pages p = height p div 8"
    "bufsize p = ucast (pages p) * ucast (width p)"
    and "px < ucast (width p)" "py < ucast (height p)"
  shows "unat (byte_index p px py) < unat (bufsize p)"
proof -
  have py: "unat py < unat (height p)" and px: "unat px < unat (width p)"
    using assms by (simp_all add: word_less_nat_alt unat_ucast_8_32)
  have w: "unat (width p) < 256"
    by (rule unat_byte_lt)
  have pg: "unat (pages p) = unat (height p) div 8"
    by (simp add: geo(2) unat_div)
  have "unat (pages p) * unat (width p) < 256 * 256"
    using w unat_byte_lt [of "pages p"] by (meson mult_strict_mono' zero_le)
  then have b: "unat (bufsize p) = unat (pages p) * unat (width p)"
    by (simp add: geo(3) unat_word_ariths unat_ucast_8_32)
  have "unat py div 8 < unat (height p) div 8"
    using py geo(1)
    by (metis div_less_iff_less_mult mult.commute mod_0_imp_dvd dvd_div_mult_self zero_less_numeral)
  then have "Suc (unat py div 8) \<le> unat (pages p)"
    using pg by simp
  then have "unat (width p) * Suc (unat py div 8) \<le> unat (width p) * unat (pages p)"
    by (rule mult_le_mono2)
  then have "unat px + unat (width p) * (unat py div 8) < unat (pages p) * unat (width p)"
    using px by (simp add: mult.commute)
  then show ?thesis
    using unat_byte_index [OF assms(5) assms(4)] b by simp
qed

section \<open>The two byte updates\<close>

lemma set_bit_byte_eq: "set_bit_byte b y = b OR push_bit (unat (y AND 7)) 1"
  unfolding set_bit_byte_def by (rule bit_word_eqI) (auto simp: bit_simps)

lemma clear_bit_byte_eq: "clear_bit_byte b y = b AND NOT (push_bit (unat (y AND 7)) 1)"
  unfolding clear_bit_byte_def by (rule bit_word_eqI) (auto simp: bit_simps)

lemma clear_set_bit_byte: "clear_bit_byte (set_bit_byte b y) y = clear_bit_byte b y"
  unfolding set_bit_byte_eq clear_bit_byte_eq by (rule bit_word_eqI) (auto simp: bit_simps)

lemma clear_bit_byte_unset: "\<not> bit b (unat (y AND 7)) \<Longrightarrow> clear_bit_byte b y = b"
  unfolding clear_bit_byte_eq by (rule bit_word_eqI) (auto simp: bit_simps)

lemma buffer_xy_buffer [simp]: "buffer_xy (p\<lparr>buffer := b\<rparr>) x y = buffer_xy p x y"
  by (simp add: buffer_xy_def)

lemma byte_index_buffer [simp]: "byte_index (p\<lparr>buffer := b\<rparr>) px py = byte_index p px py"
  by (simp add: byte_index_def)

lemma draw_then_clear_eq: "draw_then_clear p x y = ssd1306_clear_pixel p x y"
  by (auto simp: draw_then_clear_def and_then_def ssd1306_draw_pixel_def ssd1306_clear_pixel_def
      Let_def clear_set_bit_byte split: sum.splits prod.splits)

lemma buffer_xy_fault: "buffer_xy p x y = Inl e \<Longrightarrow> e = Uninitialised"
  by (auto simp: buffer_xy_def split: if_splits)

section \<open>Rotation setter\<close>

text \<open>
  C9. A rotation value above 3 leaves the display exactly as it was; a value from 0 to 3
  is stored in the rotation field and no other field changes.
\<close>

theorem set_rotation_guard:
  "(3 < r \<longrightarrow> ssd1306_set_rotation p r = p) \<and>
   (r \<le> 3 \<longrightarrow> ssd1306_set_rotation p r = p\<lparr>rotation := r\<rparr>)"
  by (auto simp: ssd1306_set_rotation_def)

theorem set_rotation_guard_witness:
  "(3 :: uint8_t) < 200 \<and>
   ssd1306_set_rotation (oled 128 64 1 [0, 0]) 200 = oled 128 64 1 [0, 0] \<and>
   (2 :: uint8_t) \<le> 3 \<and>
   ssd1306_set_rotation (oled 128 64 1 [0, 0]) 2 = oled 128 64 2 [0, 0]"
  using set_rotation_guard [of 200 "oled 128 64 1 [0, 0]"]
    set_rotation_guard [of 2 "oled 128 64 1 [0, 0]"]
  by (simp add: oled_def)

section \<open>Pixel round trip\<close>

text \<open>
  C4, as stated, fails: with the pixel already set, drawing and then clearing leaves it
  cleared. On a 128x64 display at rotation 0 whose first byte is 1, position (0, 0) is in
  range and the pair of calls changes the buffer.
\<close>

theorem draw_then_clear_counterexample:
  "buffer_xy (oled 128 64 0 (1 # replicate 1023 0)) 0 0 = Inr (0, 0) \<and>
   (0 :: uint32_t) < ucast (width (oled 128 64 0 (1 # replicate 1023 0))) \<and>
   (0 :: uint32_t) < ucast (height (oled 128 64 0 (1 # replicate 1023 0))) \<and>
   draw_then_clear (oled 128 64 0 (1 # replicate 1023 0)) 0 0 = Inr (oled 128 64 0 (0 # replicate 1023 0)) \<and>
   draw_then_clear (oled 128 64 0 (1 # replicate 1023 0)) 0 0 \<noteq> Inr (oled 128 64 0 (1 # replicate 1023 0))"
  by (simp add: draw_then_clear_def and_then_def ssd1306_draw_pixel_def ssd1306_clear_pixel_def
      oled_def buffer_xy_def byte_index_def set_bit_byte_eq clear_bit_byte_eq)

text \<open>
  C4, amended. For every buffer, every rotation from 0 to 3 and every \<open>(x, y)\<close> whose
  transformed position \<open>(px, py)\<close> is in range and addresses a byte of the buffer: if the
  pixel is unset before the draw, \<open>ssd1306_draw_pixel\<close> followed by \<open>ssd1306_clear_pixel\<close>
  returns the display it started from.
\<close>

theorem draw_then_clear_restores:
  assumes "buffer_xy p x y = Inr (px, py)"
    and "px < ucast (width p)" and "py < ucast (height p)"
    and "unat (byte_index p px py) < length (buffer p)"
    and "\<not> pixel_at p px py"
  shows "draw_then_clear p x y = Inr p"
  using assms unfolding draw_then_clear_eq
  by (simp add: ssd1306_clear_pixel_def pixel_at_def Let_def clear_bit_byte_unset)

theorem draw_then_clear_restores_witness:
  "buffer_xy (oled 128 64 2 (replicate 1024 0)) 3 9 = Inr (124, 54) \<and>
   (124 :: uint32_t) < ucast (width (oled 128 64 2 (replicate 1024 0))) \<and>
   (54 :: uint32_t) < ucast (height (oled 128 64 2 (replicate 1024 0))) \<and>
   unat (byte_index (oled 128 64 2 (replicate 1024 0)) 124 54) < length (buffer (oled 128 64 2 (replicate 1024 0))) \<and>
   \<not> pixel_at (oled 128 64 2 (replicate 1024 0)) 124 54 \<and>
   draw_then_clear (oled 128 64 2 (replicate 1024 0)) 3 9 = Inr (oled 128 64 2 (replicate 1024 0))"
proof -
  have h: "buffer_xy (oled 128 64 2 (replicate 1024 0)) 3 9 = Inr (124, 54)"
    "(124 :: uint32_t) < ucast (width (oled 128 64 2 (replicate 1024 0)))"
    "(54 :: uint32_t) < ucast (height (oled 128 64 2 (replicate 1024 0)))"
    "unat (byte_index (oled 128 64 2 (replicate 1024 0)) 124 54) < length (buffer (oled 128 64 2 (replicate 1024 0)))"
    "\<not> pixel_at (oled 128 64 2 (replicate 1024 0)) 124 54"
    by (simp_all add: oled_def buffer_xy_def byte_index_def pixel_at_def)
  from draw_then_clear_restores [OF h] h show ?thesis
    by simp
qed

section \<open>Buffer accesses stay in range\<close>

text \<open>
  C10. Let the height be a multiple of 8, \<open>pages = height / 8\<close> and
  \<open>bufsize = pages * width\<close>. Whenever the bounds check of the pixel primitives passes for
  a physical position, the byte index it then uses is below \<open>bufsize\<close>; and on a buffer
  of at least \<open>bufsize\<close> bytes neither primitive reaches the out-of-bounds branch, for any
  \<open>(x, y)\<close> and any rotation.
\<close>

theorem pixel_access_in_range:
  assumes "unat (height p) mod 8 = 0" and "pages p = height p div 8"
    and "bufsize p = ucast (pages p) * ucast (width p)"
  shows "(px < ucast (width p) \<and> py < ucast (height p) \<longrightarrow>
            unat (byte_index p px py) < unat (bufsize p)) \<and>
         (unat (bufsize p) \<le> length (buffer p) \<longrightarrow>
            ssd1306_draw_pixel p x y \<noteq> Inl OutOfBounds \<and>
            ssd1306_clear_pixel p x y \<noteq> Inl OutOfBounds)"
proof -
  have idx: "unat (byte_index p a b) < unat (bufsize p)"
    if "a < ucast (width p)" "b < ucast (height p)" for a b
    using byte_index_bound [OF assms that] .
  have "ssd1306_draw_pixel p x y \<noteq> Inl OutOfBounds \<and> ssd1306_clear_pixel p x y \<noteq> Inl OutOfBounds"
    if len: "unat (bufsize p) \<le> length (buffer p)"
  proof (cases "buffer_xy p x y")
    case (Inl e)
    then have "e = Uninitialised"
      by (rule buffer_xy_fault)
    with Inl show ?thesis
      by (simp add: ssd1306_draw_pixel_def ssd1306_clear_pixel_def)
  next
    case (Inr ab)
    obtain a b where ab: "ab = (a, b)"
      by (cases ab)
    show ?thesis
    proof (cases "a < ucast (width p) \<and> b < ucast (height p)")
      case True
      then have "unat (byte_index p a b) < length (buffer p)"
        using idx [of a b] len by simp
      with True Inr ab show ?thesis
        by (simp add: ssd1306_draw_pixel_def ssd1306_clear_pixel_def Let_def)
    next
      case False
      with Inr ab show ?thesis
        by (auto simp: ssd1306_draw_pixel_def ssd1306_clear_pixel_def)
    qed
  qed
  with idx show ?thesis
    by blast
qed

theorem pixel_access_in_range_witness:
  "unat (height (oled 128 64 1 (replicate 1024 0))) mod 8 = 0 \<and>
   pages (oled 128 64 1 (replicate 1024 0)) = height (oled 128 64 1 (replicate 1024 0)) div 8 \<and>
   bufsize (oled 128 64 1 (replicate 1024 0)) =
     ucast (pages (oled 128 64 1 (replicate 1024 0))) * ucast (width (oled 128 64 1 (replicate 1024 0))) \<and>
   (127 :: uint32_t) < ucast (width (oled 128 64 1 (replicate 1024 0))) \<and>
   (63 :: uint32_t) < ucast (height (oled 128 64 1 (replicate 1024 0))) \<and>
   unat (byte_index (oled 128 64 1 (replicate 1024 0)) 127 63) < unat (bufsize (oled 128 64 1 (replicate 1024 0))) \<and>
   unat (bufsize (oled 128 64 1 (replicate 1024 0))) \<le> length (buffer (oled 128 64 1 (replicate 1024 0))) \<and>
   ssd1306_draw_pixel (oled 128 64 1 (replicate 1024 0)) 63 0 \<noteq> Inl OutOfBounds \<and>
   ssd1306_clear_pixel (oled 128 64 1 (replicate 1024 0)) 63 0 \<noteq> Inl OutOfBounds"
proof -
  have h: "unat (height (oled 128 64 1 (replicate 1024 0))) mod 8 = 0"
    "pages (oled 128 64 1 (replicate 1024 0)) = height (oled 128 64 1 (replicate 1024 0)) div 8"
    "bufsize (oled 128 64 1 (replicate 1024 0)) =
       ucast (pages (oled 128 64 1 (replicate 1024 0))) * ucast (width (oled 128 64 1 (replicate 1024 0)))"
    by (simp_all add: oled_def)
  have r: "(127 :: uint32_t) < ucast (width (oled 128 64 1 (replicate 1024 0)))"
    "(63 :: uint32_t) < ucast (height (oled 128 64 1 (replicate 1024 0)))"
    "unat (bufsize (oled 128 64 1 (replicate 1024 0))) \<le> length (buffer (oled 128 64 1 (replicate 1024 0)))"
    by (simp_all add: oled_def)
  from pixel_access_in_range [OF h, of 127 63 63 0] h r show ?thesis
    by simp
qed

section \<open>Initialisation\<close>

lemma unat_ucast_16_8: "unat w \<le> 255 \<Longrightarrow> unat (ucast (w :: uint16_t) :: uint8_t) = unat w"
  by (simp add: unsigned_ucast_eq take_bit_nat_eq_self)

lemma init_fields:
  "ssd1306_init p w h addr i2c_instance alloc = (True, p') \<Longrightarrow>
     width p' = ucast w \<and> height p' = ucast h \<and> pages p' = ucast (h div 8) \<and>
     bufsize p' = ucast (pages p') * ucast (width p') \<and>
     length (buffer p') = unat (bufsize p')"
  by (auto simp: ssd1306_init_def Let_def split: option.splits)

text \<open>
  C5, as stated, fails: the arguments are 16 bits wide and the fields 8. For width 257 and
  height 256 (positive, height a multiple of 8) a successful \<open>ssd1306_init\<close> stores width 1,
  height 0 and pages 32 and sets \<open>bufsize\<close> to 32, which is neither \<open>(256 / 8) * 257\<close> nor
  the product of the stored width with the stored height divided by 8.
\<close>

theorem init_bufsize_counterexample:
  "fst (ssd1306_init (oled 0 0 0 []) 257 256 0x3C 0 (Some zero_block)) \<and>
   unat (bufsize (snd (ssd1306_init (oled 0 0 0 []) 257 256 0x3C 0 (Some zero_block)))) = 32 \<and>
   width (snd (ssd1306_init (oled 0 0 0 []) 257 256 0x3C 0 (Some zero_block))) = 1 \<and>
   height (snd (ssd1306_init (oled 0 0 0 []) 257 256 0x3C 0 (Some zero_block))) = 0 \<and>
   pages (snd (ssd1306_init (oled 0 0 0 []) 257 256 0x3C 0 (Some zero_block))) = 32 \<and>
   unat (bufsize (snd (ssd1306_init (oled 0 0 0 []) 257 256 0x3C 0 (Some zero_block))))
     \<noteq> (256 div 8) * 257"
  by (simp add: ssd1306_init_def oled_def Let_def)

text \<open>
  C5, amended. After a successful \<open>ssd1306_init\<close>, \<open>bufsize\<close> is the product of the
  stored \<open>pages\<close> and \<open>width\<close> fields and the pixel area has \<open>bufsize\<close> bytes. For every
  width up to 255 and every height up to 2047 (so that the width and \<open>height / 8\<close> fit the
  8-bit fields; this covers every valid pair within those bounds) the stored width is the
  argument, \<open>pages\<close> is \<open>height / 8\<close>, and so \<open>bufsize\<close> is \<open>(height / 8) * width\<close>.
\<close>

theorem init_bufsize:
  assumes "ssd1306_init p w h addr i2c_instance alloc = (True, p')"
  shows "unat (bufsize p') = unat (pages p') * unat (width p') \<and>
         length (buffer p') = unat (bufsize p') \<and>
         (unat w \<le> 255 \<and> unat h \<le> 2047 \<longrightarrow>
            unat (width p') = unat w \<and> unat (pages p') = unat h div 8 \<and>
            unat (bufsize p') = (unat h div 8) * unat w)"
proof -
  note f = init_fields [OF assms]
  have "unat (pages p') * unat (width p') < 256 * 256"
    using unat_byte_lt [of "pages p'"] unat_byte_lt [of "width p'"]
    by (meson mult_strict_mono' zero_le)
  then have b: "unat (bufsize p') = unat (pages p') * unat (width p')"
    using f by (simp add: unat_word_ariths unat_ucast_8_32)
  have "unat (width p') = unat w \<and> unat (pages p') = unat h div 8" if "unat w \<le> 255" "unat h \<le> 2047"
  proof -
    have "unat (h div 8) \<le> 255"
      using that(2) by (simp add: unat_div)
    then show ?thesis
      using f that(1) by (simp add: unat_ucast_16_8 unat_div)
  qed
  with b f show ?thesis
    by simp
qed

theorem init_bufsize_witness:
  "ssd1306_init (oled 0 0 0 []) 128 64 0x3C 0 (Some zero_block) = (True, oled 128 64 0 (replicate 1024 0)) \<and>
   unat (128 :: uint16_t) \<le> 255 \<and> unat (64 :: uint16_t) \<le> 2047 \<and>
   unat (width (oled 128 64 0 (replicate 1024 0))) = 128 \<and>
   unat (pages (oled 128 64 0 (replicate 1024 0))) = 8 \<and>
   unat (bufsize (oled 128 64 0 (replicate 1024 0))) = 1024 \<and>
   length (buffer (oled 128 64 0 (replicate 1024 0))) = 1024"
proof -
  have "map (\<lambda>k. zero_block (k + 1)) [0..<n] = replicate n 0" for n
    by (simp add: zero_block_def map_replicate_const)
  then have h: "ssd1306_init (oled 0 0 0 []) 128 64 0x3C 0 (Some zero_block) = (True, oled 128 64 0 (replicate 1024 0))"
    by (simp add: ssd1306_init_def oled_def Let_def)
  have b: "unat (128 :: uint16_t) \<le> 255" "unat (64 :: uint16_t) \<le> 2047"
    by simp_all
  from init_bufsize [OF h] h b show ?thesis
    by simp
qed

section \<open>Bitmap header checks\<close>

lemma and_then_Inr [simp]: "and_then (Inr v) f = f v"
  by (simp add: and_then_def)

lemma and_then_Inl [simp]: "and_then (Inl e) f = Inl e"
  by (simp add: and_then_def)

lemma rd_in_range [simp]: "k < length data \<Longrightarrow> rd data k = Inr (data ! k)"
  by (simp add: rd_def)

lemma rd_out_of_range [simp]: "length data \<le> k \<Longrightarrow> rd data k = Inl OutOfBounds"
  by (simp add: rd_def)

lemma bmp_get_val_2:
  "offset + 1 < length data \<Longrightarrow>
     ssd1306_bmp_get_val data offset 2 = Inr (ucast (data ! offset) OR push_bit 8 (ucast (data ! (offset + 1))))"
  by (simp add: ssd1306_bmp_get_val_def)

lemma bmp_get_val_4:
  "offset + 3 < length data \<Longrightarrow>
     ssd1306_bmp_get_val data offset 4 =
       Inr (ucast (data ! offset) OR push_bit 8 (ucast (data ! (offset + 1)))
            OR push_bit 16 (ucast (data ! (offset + 2))) OR push_bit 24 (ucast (data ! (offset + 3))))"
  by (simp add: ssd1306_bmp_get_val_def)

lemma ucast_bit_count:
  "(ucast (ucast (b0 :: uint8_t) OR push_bit 8 (ucast (b1 :: uint8_t)) :: uint32_t) :: uint16_t)
     = ucast b0 OR push_bit 8 (ucast b1)"
  by (rule bit_word_eqI) (auto simp: bit_simps)

text \<open>
  C8. If the size passed is below 54, or the header (34 bytes are read) has a bit depth
  other than 1 or a compression flag other than 0, \<open>ssd1306_bmp_show_image_with_offset\<close>
  returns normally with the display, and so the framebuffer, exactly as it was.
\<close>

theorem bmp_rejects_unsupported:
  assumes "sz <s 54 \<or> (34 \<le> length data \<and> (bmp_bit_count data \<noteq> 1 \<or> bmp_compression data \<noteq> 0))"
  shows "ssd1306_bmp_show_image_with_offset p data sz x_offset y_offset = Inr p"
proof (cases "sz <s 54")
  case True
  then show ?thesis
    by (simp add: ssd1306_bmp_show_image_with_offset_def)
next
  case False
  with assms have len: "34 \<le> length data"
    and bad: "bmp_bit_count data \<noteq> 1 \<or> bmp_compression data \<noteq> 0"
    by simp_all
  from len have v: "ssd1306_bmp_get_val data 10 4 \<noteq> Inl e" "ssd1306_bmp_get_val data 14 4 \<noteq> Inl e"
    "ssd1306_bmp_get_val data 18 4 \<noteq> Inl e" "ssd1306_bmp_get_val data 22 4 \<noteq> Inl e" for e
    by (simp_all add: bmp_get_val_4)
  from len have f: "ssd1306_bmp_get_val data 28 2 = Inr (ucast (data ! 28) OR push_bit 8 (ucast (data ! 29)))"
    "ssd1306_bmp_get_val data 30 4 = Inr (bmp_compression data)"
    by (simp_all add: bmp_get_val_2 bmp_get_val_4 bmp_compression_def)
  from bad show ?thesis
    unfolding ssd1306_bmp_show_image_with_offset_def
    using False v
    by (auto simp: f Let_def ucast_bit_count bmp_bit_count_def and_then_def split: sum.splits)
qed

theorem bmp_rejects_unsupported_witness:
  "(10 :: int32_t) <s 54 \<and>
   ssd1306_bmp_show_image_with_offset (oled 128 64 0 (replicate 1024 0)) [66, 77] 10 0 0
     = Inr (oled 128 64 0 (replicate 1024 0)) \<and>
   \<not> (54 :: int32_t) <s 54 \<and>
   34 \<le> length (replicate 28 0 @ [8 :: uint8_t, 0] @ replicate 24 0) \<and>
   bmp_bit_count (replicate 28 0 @ [8, 0] @ replicate 24 0) \<noteq> 1 \<and>
   ssd1306_bmp_show_image_with_offset (oled 128 64 0 (replicate 1024 0))
       (replicate 28 0 @ [8, 0] @ replicate 24 0) 54 0 0
     = Inr (oled 128 64 0 (replicate 1024 0)) \<and>
   34 \<le> length (replicate 28 0 @ [1 :: uint8_t, 0, 1] @ replicate 23 0) \<and>
   bmp_compression (replicate 28 0 @ [1, 0, 1] @ replicate 23 0) \<noteq> 0 \<and>
   ssd1306_bmp_show_image_with_offset (oled 128 64 0 (replicate 1024 0))
       (replicate 28 0 @ [1, 0, 1] @ replicate 23 0) 54 0 0
     = Inr (oled 128 64 0 (replicate 1024 0))"
proof -
  have a: "(10 :: int32_t) <s 54" "\<not> (54 :: int32_t) <s 54"
    by (simp_all add: word_sless_alt)
  have b: "34 \<le> length (replicate 28 0 @ [8 :: uint8_t, 0] @ replicate 24 0)"
    "bmp_bit_count (replicate 28 0 @ [8, 0] @ replicate 24 0) \<noteq> 1"
    by (simp_all add: bmp_bit_count_def nth_append)
  have c: "34 \<le> length (replicate 28 0 @ [1 :: uint8_t, 0, 1] @ replicate 23 0)"
    "bmp_compression (replicate 28 0 @ [1, 0, 1] @ replicate 23 0) \<noteq> 0"
    by (simp_all add: bmp_compression_def nth_append)
  from a b c
    bmp_rejects_unsupported [of 10 "[66, 77]" "oled 128 64 0 (replicate 1024 0)" 0 0]
    bmp_rejects_unsupported [of 54 "replicate 28 0 @ [8, 0] @ replicate 24 0" "oled 128 64 0 (replicate 1024 0)" 0 0]
    bmp_rejects_unsupported [of 54 "replicate 28 0 @ [1, 0, 1] @ replicate 23 0" "oled 128 64 0 (replicate 1024 0)" 0 0]
  show ?thesis
    by simp
qed

section \<open>String advance\<close>

lemma draw_char_short_font:
  "length font \<le> 3 \<Longrightarrow> ssd1306_draw_char_with_font p x y scale font c = Inl OutOfBounds"
  by (simp add: ssd1306_draw_char_with_font_def)

lemma draw_char_not_in_font:
  assumes "5 \<le> length font" and "c < font ! 3 \<or> font ! 4 < c"
  shows "ssd1306_draw_char_with_font p x y scale font c = Inr p"
  using assms by (auto simp: ssd1306_draw_char_with_font_def)

lemma draw_string_from_positions:
  "draw_string_from p (char_x font x scale i) y scale font s =
     draw_chars_at p y scale font (map (\<lambda>(n, c). (char_x font x scale n, c)) (enumerate i s))"
proof (induction s arbitrary: p i)
  case Nil
  show ?case by simp
next
  case (Cons c s)
  show ?case
  proof (cases "length font \<le> 3")
    case True
    then show ?thesis
      by (simp add: draw_char_short_font)
  next
    case False
    have step: "char_x font x scale i + (ucast (font ! Suc 0) + ucast (font ! 2)) * scale = char_x font x scale (Suc i)"
      by (simp add: char_x_def algebra_simps)
    from False show ?thesis
      by (cases "ssd1306_draw_char_with_font p (char_x font x scale i) y scale font c")
         (simp_all add: step Cons.IH)
  qed
qed

lemma string_positions_nth:
  assumes "n < length s"
  shows "string_positions font x scale s ! n = (char_x font x scale n, s ! n)"
  using assms by (simp add: string_positions_def nth_enumerate_eq)

text \<open>
  C7. \<open>ssd1306_draw_string_with_font\<close> is the sequence of calls of
  \<open>ssd1306_draw_char_with_font\<close>, one per character and in order, in which character
  number \<open>n\<close> of \<open>s\<close> is drawn at \<open>x + n * (font[1] + font[2]) * scale\<close> (in \<open>uint32_t\<close>).
  The position depends on \<open>n\<close> alone: a character outside the range of the font, which
  \<open>ssd1306_draw_char_with_font\<close> skips, advances the cursor like any other.
\<close>

theorem draw_string_advance:
  "ssd1306_draw_string_with_font p x y scale font s =
     draw_chars_at p y scale font (string_positions font x scale s) \<and>
   length (string_positions font x scale s) = length s \<and>
   (\<forall>n < length s.
      string_positions font x scale s ! n =
        (x + of_nat n * ((ucast (font ! 1) + ucast (font ! 2)) * scale), s ! n))"
proof -
  have "ssd1306_draw_string_with_font p x y scale font s =
      draw_chars_at p y scale font (string_positions font x scale s)"
    using draw_string_from_positions [of p font x scale 0 y s]
    by (simp add: ssd1306_draw_string_with_font_def string_positions_def char_x_def)
  moreover have "length (string_positions font x scale s) = length s"
    by (simp add: string_positions_def)
  moreover have "string_positions font x scale s ! n =
      (x + of_nat n * ((ucast (font ! 1) + ucast (font ! 2)) * scale), s ! n)" if "n < length s" for n
    using string_positions_nth [OF that, of font x scale] by (simp add: char_x_def)
  ultimately show ?thesis
    by blast
qed

text \<open>
  A font of height 8, width 1 and spacing 1 holding the characters 65 and 66; in the string
  65, 90, 66 the middle character is outside the font and the third is still drawn two
  advances after the first.
\<close>

theorem draw_string_advance_witness:
  "(2 :: nat) < length [65, 90, 66 :: uint8_t] \<and>
   (90 :: uint8_t) > [8, 1, 1, 65, 66, 0xFF, 0x81] ! 4 \<and>
   string_positions [8, 1, 1, 65, 66, 0xFF, 0x81] 10 3 [65, 90, 66] ! 2 = (22, 66) \<and>
   ssd1306_draw_string_with_font (oled 128 64 0 (replicate 1024 0)) 10 0 3 [8, 1, 1, 65, 66, 0xFF, 0x81] [65, 90, 66]
     = draw_chars_at (oled 128 64 0 (replicate 1024 0)) 0 3 [8, 1, 1, 65, 66, 0xFF, 0x81] [(10, 65), (16, 90), (22, 66)]"
proof -
  have n: "(2 :: nat) < length [65, 90, 66 :: uint8_t]"
    by simp
  have e: "string_positions [8, 1, 1, 65, 66, 0xFF, 0x81] 10 3 [65, 90, 66] = [(10, 65), (16, 90), (22, 66)]"
    by (simp add: string_positions_def char_x_def enumerate_eq_zip upt_rec)
  from draw_string_advance [of "oled 128 64 0 (replicate 1024 0)" 10 0 3 "[8, 1, 1, 65, 66, 0xFF, 0x81]" "[65, 90, 66]"]
    n e show ?thesis
    by simp
qed

section \<open>Mirrored circle points that wrap\<close>

lemma ucast8_lt_256: "(ucast (b :: uint8_t) :: uint32_t) < 256"
proof -
  have "unat (ucast b :: uint32_t) < 256"
    using unat_byte_lt [of b] by (simp add: unat_ucast_8_32)
  then show ?thesis
    by (simp add: word_less_nat_alt)
qed

lemma ucast8_half_lt_128: "(ucast (b :: uint8_t) :: uint32_t) div 2 < 128"
proof -
  have "unat ((ucast b :: uint32_t) div 2) < 128"
    using unat_byte_lt [of b] by (simp add: unat_div unat_ucast_8_32)
  then show ?thesis
    by (simp add: word_less_nat_alt)
qed

lemma unat_wrapped:
  fixes a b :: uint32_t
  assumes "a < b"
  shows "unat (a - b) = 2 ^ 32 - (unat b - unat a)"
  using assms unsigned_less [of b, where 'a = nat]
  by (simp add: word_less_nat_alt unat_sub_if_size word_size)

lemma wrapped_large:
  fixes a b r :: uint32_t
  assumes "a < b" "b < r" "r \<le> 0xFFFFFE00"
  shows "512 \<le> a - b"
  using assms unfolding word_le_nat_alt unat_wrapped [OF assms(1)]
  by (simp add: word_less_nat_alt)

lemma wrapped_not_below:
  fixes a c :: uint32_t
  assumes "512 \<le> a" "c < 256"
  shows "\<not> a < c"
  using assms by (simp add: word_less_nat_alt word_le_nat_alt)

lemma unat_mirrored:
  fixes a b r c :: uint32_t
  assumes "a < b" "b < r" "r \<le> 0xFFFFFE00" "c < 256"
  shows "unat (c - 1 - (a - b)) = unat c + (unat b - unat a) - 1"
proof -
  have eq: "c - 1 - (a - b) = c + ((b - a) - 1)"
    by simp
  have ba: "unat (b - a) = unat b - unat a"
    using assms(1) by (simp add: unat_sub)
  have pos: "0 < unat b - unat a" and le: "unat b - unat a \<le> 4294966784"
    using assms(1-3) by (simp_all add: word_less_nat_alt word_le_nat_alt)
  then have "b - a \<noteq> 0"
    using ba by (metis less_numeral_extra(3) unat_0)
  then have m: "unat ((b - a) - 1) = unat b - unat a - 1"
    by (simp add: unat_minus_one ba)
  have "unat c < 256"
    using assms(4) by (simp add: word_less_nat_alt)
  with le have "unat c + unat ((b - a) - 1) < 2 ^ LENGTH(32)"
    by (simp add: m)
  then have "unat (c + ((b - a) - 1)) = unat c + unat ((b - a) - 1)"
    by (rule unat_add_lem [THEN iffD1])
  with m pos show ?thesis
    by (simp add: eq)
qed

lemma mirrored_not_below:
  fixes a b r c :: uint32_t
  assumes "a < b" "b < r" "r \<le> 0xFFFFFE00" "c < 256"
  shows "\<not> c - 1 - (a - b) < c"
  using assms(1) by (simp add: word_less_nat_alt unat_mirrored [OF assms])

lemma mirrored_shifted_not_below:
  fixes a b r c e w :: uint32_t
  assumes "a < b" "b < r" "r \<le> 0xFFFFFE00" "c < 256" "e < 128" "unat w \<le> unat c + unat e"
  shows "\<not> c - 1 - (a - b) + e < w"
proof -
  have le: "unat b - unat a \<le> 4294966784" and pos: "0 < unat b - unat a"
    using assms(1-3) by (simp_all add: word_less_nat_alt word_le_nat_alt)
  have "unat c < 256" "unat e < 128"
    using assms(4,5) by (simp_all add: word_less_nat_alt)
  with le have "unat (c - 1 - (a - b)) + unat e < 2 ^ LENGTH(32)"
    by (simp add: unat_mirrored [OF assms(1-4)])
  then have "unat (c - 1 - (a - b) + e) = unat (c - 1 - (a - b)) + unat e"
    by (rule unat_add_lem [THEN iffD1])
  then have "unat (c - 1 - (a - b) + e) = unat c + (unat b - unat a) - 1 + unat e"
    by (simp add: unat_mirrored [OF assms(1-4)])
  with pos assms(6) show ?thesis
    by (simp add: word_less_nat_alt)
qed

lemma rotation_cases:
  assumes "rotation p \<le> 3"
  shows "rotation p = 0 \<or> rotation p = 1 \<or> rotation p = 2 \<or> rotation p = 3"
proof -
  have "unat (rotation p) \<le> 3"
    using assms by (simp add: word_le_nat_alt)
  then have "unat (rotation p) = 0 \<or> unat (rotation p) = 1 \<or> unat (rotation p) = 2 \<or> unat (rotation p) = 3"
    by linarith
  moreover have "v = w" if "unat v = unat w" for v w :: uint8_t
    using that by (rule unsigned_word_eqI)
  from this [of "rotation p" 0] this [of "rotation p" 1] this [of "rotation p" 2] this [of "rotation p" 3]
  have "unat (rotation p) = 0 \<Longrightarrow> rotation p = 0" "unat (rotation p) = 1 \<Longrightarrow> rotation p = 1"
    "unat (rotation p) = 2 \<Longrightarrow> rotation p = 2" "unat (rotation p) = 3 \<Longrightarrow> rotation p = 3"
    by simp_all
  ultimately show ?thesis
    by blast
qed

lemma pixel_rejected:
  assumes "buffer_xy p x y = Inr (px, py)" and "\<not> px < ucast (width p) \<or> \<not> py < ucast (height p)"
  shows "ssd1306_draw_pixel p x y = Inr p \<and> ssd1306_clear_pixel p x y = Inr p"
  using assms by (auto simp: ssd1306_draw_pixel_def ssd1306_clear_pixel_def)

lemma wrapped_x_rejected:
  assumes "rotation p \<le> 3" and "x < i" and "i < r" and "r \<le> 0xFFFFFE00"
  shows "ssd1306_draw_pixel p (x - i) y = Inr p \<and> ssd1306_clear_pixel p (x - i) y = Inr p"
proof -
  note big = wrapped_large [OF assms(2-4)]
  note w = ucast8_lt_256 [of "width p"] and h = ucast8_lt_256 [of "height p"]
  consider "rotation p = 0" | "rotation p = 1" | "rotation p = 2" | "rotation p = 3"
    using rotation_cases [OF assms(1)] by blast
  then show ?thesis
  proof cases
    case 1
    then have "buffer_xy p (x - i) y = Inr (x - i, y)"
      by (simp add: buffer_xy_def)
    then show ?thesis
      using wrapped_not_below [OF big w] by (rule pixel_rejected [OF _ disjI1])
  next
    case 2
    then have "buffer_xy p (x - i) y = Inr (ucast (height p) - 1 - y + ucast (width p) div 2, x - i)"
      by (simp add: buffer_xy_def)
    then show ?thesis
      using wrapped_not_below [OF big h] by (rule pixel_rejected [OF _ disjI2])
  next
    case 3
    then have "buffer_xy p (x - i) y = Inr (ucast (width p) - 1 - (x - i), ucast (height p) - 1 - y)"
      by (simp add: buffer_xy_def)
    then show ?thesis
      using mirrored_not_below [OF assms(2-4) w] by (rule pixel_rejected [OF _ disjI1])
  next
    case 4
    then have "buffer_xy p (x - i) y = Inr (y, ucast (height p) - 1 - (x - i))"
      by (simp add: buffer_xy_def)
    then show ?thesis
      using mirrored_not_below [OF assms(2-4) h] by (rule pixel_rejected [OF _ disjI2])
  qed
qed

lemma wrapped_y_rejected:
  assumes "rotation p \<le> 3" and "y < j" and "j < r" and "r \<le> 0xFFFFFE00"
    and "rotation p = 1 \<longrightarrow> unat (width p) \<le> unat (height p) + unat (width p) div 2"
  shows "ssd1306_draw_pixel p x (y - j) = Inr p \<and> ssd1306_clear_pixel p x (y - j) = Inr p"
proof -
  note big = wrapped_large [OF assms(2-4)]
  note w = ucast8_lt_256 [of "width p"] and h = ucast8_lt_256 [of "height p"]
  consider "rotation p = 0" | "rotation p = 1" | "rotation p = 2" | "rotation p = 3"
    using rotation_cases [OF assms(1)] by blast
  then show ?thesis
  proof cases
    case 1
    then have "buffer_xy p x (y - j) = Inr (x, y - j)"
      by (simp add: buffer_xy_def)
    then show ?thesis
      using wrapped_not_below [OF big h] by (rule pixel_rejected [OF _ disjI2])
  next
    case 2
    then have b: "buffer_xy p x (y - j) = Inr (ucast (height p) - 1 - (y - j) + ucast (width p) div 2, x)"
      by (simp add: buffer_xy_def)
    from 2 assms(5) have "unat (ucast (width p) :: uint32_t)
        \<le> unat (ucast (height p) :: uint32_t) + unat ((ucast (width p) :: uint32_t) div 2)"
      by (simp add: unat_ucast_8_32 unat_div)
    then have "\<not> ucast (height p) - 1 - (y - j) + ucast (width p) div 2 < (ucast (width p) :: uint32_t)"
      by (rule mirrored_shifted_not_below [OF assms(2-4) h ucast8_half_lt_128])
    then show ?thesis
      by (rule pixel_rejected [OF b disjI1])
  next
    case 3
    then have "buffer_xy p x (y - j) = Inr (ucast (width p) - 1 - x, ucast (height p) - 1 - (y - j))"
      by (simp add: buffer_xy_def)
    then show ?thesis
      using mirrored_not_below [OF assms(2-4) h] by (rule pixel_rejected [OF _ disjI2])
  next
    case 4
    then have "buffer_xy p x (y - j) = Inr (y - j, ucast (height p) - 1 - x)"
      by (simp add: buffer_xy_def)
    then show ?thesis
      using wrapped_not_below [OF big w] by (rule pixel_rejected [OF _ disjI1])
  qed
qed

section \<open>Lines\<close>

lemma swap_apply: "swap a b m = (\<lambda>v. if v = a \<or> v = b then m b else m v)"
  by (auto simp: swap_def Let_def fun_eq_iff)

lemma sint_plus_one:
  assumes "(i :: int32_t) \<noteq> 0x7FFFFFFF"
  shows "sint (i + 1) = sint i + 1"
proof -
  have r: "sint i < 2 ^ 31" "- (2 ^ 31) \<le> sint i"
    using sint_lt [of i] sint_ge [of i] by simp_all
  have "sint i \<noteq> 2 ^ 31 - 1"
  proof
    assume "sint i = 2 ^ 31 - 1"
    then have "sint i = sint (0x7FFFFFFF :: 32 word)" by simp
    then show False using assms signed_word_eqI by blast
  qed
  with r have "sint i + 1 < 2 ^ 31" "- (2 ^ 31) \<le> sint i + 1" by simp_all
  then have "signed_take_bit 31 (sint i + 1) = sint i + 1"
    by (simp add: signed_take_bit_int_eq_self)
  then show ?thesis
    by (simp add: sint_word_ariths)
qed

lemma for_le_s32_single:
  assumes "n \<noteq> 0x7FFFFFFF"
  shows "for_le_s32 n n body s = body n s"
proof -
  have "sint (n + 1) = sint n + 1"
    using assms by (rule sint_plus_one)
  then have "\<not> n + 1 \<le>s n"
    by (simp add: word_sle_eq)
  then have "for_le_s32 (n + 1) n body s' = Inr s'" for s'
    by (simp add: for_le_s32.simps)
  then show ?thesis
    using assms by (simp add: for_le_s32.simps [of n n] split: sum.splits)
qed

lemma draw_line_reversed:
  assumes "x2 <s x1" and "y2 \<noteq> 0x7FFFFFFF"
  shows "ssd1306_draw_line row p x1 y1 x2 y2 = ssd1306_draw_pixel p x2 y2"
  using assms
  by (simp add: ssd1306_draw_line_def Let_def swap_apply line_locals_def for_le_s32_single)

lemma draw_line_vertical_reversed:
  assumes "y2 <s y1" and "y2 \<noteq> 0x7FFFFFFF"
  shows "ssd1306_draw_line row p x y1 x y2 = ssd1306_draw_pixel p x y2"
  using assms
  by (simp add: ssd1306_draw_line_def Let_def swap_apply line_locals_def for_le_s32_single)

lemmas pixel_eval =
  ssd1306_draw_pixel_def buffer_xy_def byte_index_def set_bit_byte_eq oled_def lit_def
  get_pixel_def pixel_at_def nth_list_update

text \<open>
  C1: the code at \<open>ssd1306_draw_line(p, 5, 0, 0, 0)\<close> on a cleared 128x64 display at
  rotation 0, whatever the floating-point row function. Both endpoints are in range. The
  call does what \<open>ssd1306_draw_pixel(p, 0, 0)\<close> does: the endpoint (0, 0) is set and the
  endpoint (5, 0) is not.
\<close>

theorem draw_line_right_to_left:
  "buffer_xy (oled 128 64 0 (replicate 1024 0)) 5 0 = Inr (5, 0) \<and>
   (5 :: uint32_t) < ucast (width (oled 128 64 0 (replicate 1024 0))) \<and>
   (0 :: uint32_t) < ucast (height (oled 128 64 0 (replicate 1024 0))) \<and>
   ssd1306_draw_line row (oled 128 64 0 (replicate 1024 0)) 5 0 0 0
     = ssd1306_draw_pixel (oled 128 64 0 (replicate 1024 0)) 0 0 \<and>
   lit (ssd1306_draw_line row (oled 128 64 0 (replicate 1024 0)) 5 0 0 0) 0 0 = Inr True \<and>
   lit (ssd1306_draw_line row (oled 128 64 0 (replicate 1024 0)) 5 0 0 0) 5 0 = Inr False"
  by (simp add: draw_line_reversed word_sless_alt pixel_eval)

text \<open>
  C2: the code where the claim needs the swap. After \<open>swap(&x1, &x2)\<close> on the locals of
  \<open>ssd1306_draw_line(p, 5, 7, 0, 9)\<close> both \<open>x1\<close> and \<open>x2\<close> hold 0. On a cleared 128x64
  display at rotation 0 the vertical line from (0, 5) to (0, 0) is the single pixel (0, 0),
  and leaves (0, 5) unset, while the line from (0, 0) to (0, 5) sets (0, 5).
\<close>

theorem draw_line_swap_loses_endpoint:
  "swap X1 X2 (line_locals 5 7 0 9) X1 = 0 \<and>
   swap X1 X2 (line_locals 5 7 0 9) X2 = 0 \<and>
   ssd1306_draw_line row (oled 128 64 0 (replicate 1024 0)) 0 5 0 0
     = ssd1306_draw_pixel (oled 128 64 0 (replicate 1024 0)) 0 0 \<and>
   lit (ssd1306_draw_line row (oled 128 64 0 (replicate 1024 0)) 0 5 0 0) 0 5 = Inr False \<and>
   lit (ssd1306_draw_line row (oled 128 64 0 (replicate 1024 0)) 0 0 0 5) 0 5 = Inr True"
proof -
  have "lit (ssd1306_draw_line row (oled 128 64 0 (replicate 1024 0)) 0 0 0 5) 0 5 = Inr True"
    by (simp add: ssd1306_draw_line_def Let_def line_locals_def for_le_s32.simps
        word_sless_alt word_sle_eq pixel_eval)
  then show ?thesis
    by (simp add: draw_line_vertical_reversed swap_apply line_locals_def word_sless_alt pixel_eval)
qed

section \<open>Circles\<close>

lemma clear_128x64:
  assumes "length buf = 1024"
  shows "ssd1306_clear (oled 128 64 r buf) = Inr (oled 128 64 r (replicate 1024 0))"
  using assms by (simp add: ssd1306_clear_def oled_def)

lemmas circle_eval = ssd1306_draw_circle_def circle_body_def for_lt.simps

text \<open>
  The display after \<open>ssd1306_draw_circle(p, 20, 20, 5)\<close> on a cleared 128x64 display at
  rotation 0, as far as column 20 needs it: the bytes of column 20 in pages 0 and 1 (rows 0
  to 15) are still zero, and bit 0 of its byte in page 2 (row 16) is set.
\<close>

lemma circle_20_20_5_column:
  "\<exists>p'. ssd1306_draw_circle (oled 128 64 0 (replicate 1024 0)) 20 20 5 = Inr p' \<and>
     width p' = 128 \<and> height p' = 64 \<and> rotation p' = 0 \<and> length (buffer p') = 1024 \<and>
     buffer p' ! 20 = 0 \<and> buffer p' ! 148 = 0 \<and> bit (buffer p' ! 276) 0"
  by (simp add: circle_eval pixel_eval)

lemma page_of_row_below_16:
  fixes y :: uint32_t
  assumes "y < 16"
  shows "drop_bit 3 y = 0 \<or> drop_bit 3 y = 1"
proof -
  have "unat y < 16"
    using assms by (simp add: word_less_nat_alt)
  then have "unat (drop_bit 3 y) = 0 \<or> unat (drop_bit 3 y) = 1"
    unfolding unat_drop_bit3 by linarith
  then show ?thesis
    by (metis unat_0 unat_1 unsigned_word_eqI)
qed

text \<open>
  C3, as stated, fails: after \<open>ssd1306_draw_circle(p, 20, 20, 5)\<close> on a cleared 128x64
  display at rotation 0 the pixel (20, 15) is not set. The loops stop at \<open>j = 4\<close>.
\<close>

theorem draw_circle_top_counterexample:
  "lit (ssd1306_draw_circle (oled 128 64 0 (replicate 1024 0)) 20 20 5) 20 15 = Inr False"
  by (simp add: circle_eval pixel_eval)

text \<open>
  C3, amended. After \<open>ssd1306_draw_circle(p, 20, 20, 5)\<close> on a cleared 128x64 display at
  rotation 0 the topmost pixel set in column 20 is (20, 16), that is \<open>y - (r - 1)\<close>: the
  pixel (20, 16) is set, and every pixel \<open>(20, y)\<close> with \<open>y < 16\<close> is unset, in particular
  (20, 15) and (20, 14).
\<close>

theorem draw_circle_top:
  "lit (ssd1306_draw_circle (oled 128 64 0 (replicate 1024 0)) 20 20 5) 20 16 = Inr True \<and>
   lit (ssd1306_draw_circle (oled 128 64 0 (replicate 1024 0)) 20 20 5) 20 15 = Inr False \<and>
   lit (ssd1306_draw_circle (oled 128 64 0 (replicate 1024 0)) 20 20 5) 20 14 = Inr False \<and>
   (\<forall>y<16. lit (ssd1306_draw_circle (oled 128 64 0 (replicate 1024 0)) 20 20 5) 20 y = Inr False)"
proof -
  obtain p' where c: "ssd1306_draw_circle (oled 128 64 0 (replicate 1024 0)) 20 20 5 = Inr p'"
    and g: "width p' = 128" "height p' = 64" "rotation p' = 0" "length (buffer p') = 1024"
    and b: "buffer p' ! 20 = 0" "buffer p' ! 148 = 0" "bit (buffer p' ! 276) 0"
    using circle_20_20_5_column by blast
  have set16: "get_pixel p' 20 16"
    using g b by (simp add: get_pixel_def pixel_at_def buffer_xy_def byte_index_def)
  have above: "\<not> get_pixel p' 20 y" if "y < 16" for y
    using page_of_row_below_16 [OF that] g b
    by (auto simp: get_pixel_def pixel_at_def buffer_xy_def byte_index_def)
  have "\<not> get_pixel p' 20 15" "\<not> get_pixel p' 20 14"
    by (simp_all add: above)
  with set16 above show ?thesis
    by (simp add: c lit_def)
qed

theorem draw_circle_top_witness:
  "(0 :: uint32_t) < 16 \<and>
   lit (ssd1306_draw_circle (oled 128 64 0 (replicate 1024 0)) 20 20 5) 20 0 = Inr False \<and>
   (9 :: uint32_t) < 16 \<and>
   lit (ssd1306_draw_circle (oled 128 64 0 (replicate 1024 0)) 20 20 5) 20 9 = Inr False \<and>
   lit (ssd1306_draw_circle (oled 128 64 0 (replicate 1024 0)) 20 20 5) 20 16 = Inr True"
proof -
  have h: "(0 :: uint32_t) < 16" "(9 :: uint32_t) < 16"
    by simp_all
  from draw_circle_top h show ?thesis
    by blast
qed

text \<open>
  C6, as stated, fails at rotation 1, where the column is \<open>height - 1 - y + width / 2\<close>
  and a wrapped \<open>y\<close> comes back into range on a display with \<open>height + width / 2 < width\<close>.
  On a cleared 128x32 display at rotation 1, \<open>ssd1306_draw_circle(p, 5, 0, 2)\<close> reaches
  \<open>i = 0\<close>, \<open>j = 1\<close>, where \<open>y - j\<close> underflows; the call for the mirrored point
  \<open>(5, 0 - 1)\<close> sets a pixel that was unset, and it is set after the whole circle.

  It also fails, at any rotation, for radii within 255 of \<open>2^32\<close>, where the wrapped
  value is small: for \<open>r = 2^32 - 3\<close> the round \<open>i = 2^32 - 4\<close>, \<open>j = 0x0211BB27\<close>
  passes the test (\<open>i * i + j * j\<close> wraps to 1, \<open>r * r\<close> to 9), and with \<open>x = 0\<close> the
  underflowing \<open>x - i\<close> is 4, in range at rotation 0.
\<close>

theorem wrapped_mirror_counterexample:
  "rotation (oled 128 32 1 (replicate 512 0)) = 1 \<and>
   (0 :: uint32_t) < 2 \<and> (1 :: uint32_t) < 2 \<and> (0 :: uint32_t) * 0 + 1 * 1 \<le> 2 * 2 \<and>
   (0 :: uint32_t) < 1 \<and>
   \<not> get_pixel (oled 128 32 1 (replicate 512 0)) 5 (0 - 1) \<and>
   lit (ssd1306_draw_pixel (oled 128 32 1 (replicate 512 0)) (5 + 0) (0 - 1)) 5 (0 - 1) = Inr True \<and>
   lit (ssd1306_draw_circle (oled 128 32 1 (replicate 512 0)) 5 0 2) 5 (0 - 1) = Inr True \<and>
   (0xFFFFFFFC :: uint32_t) < 0xFFFFFFFD \<and> (0x0211BB27 :: uint32_t) < 0xFFFFFFFD \<and>
   (0xFFFFFFFC :: uint32_t) * 0xFFFFFFFC + 0x0211BB27 * 0x0211BB27 \<le> 0xFFFFFFFD * 0xFFFFFFFD \<and>
   (0 :: uint32_t) < 0xFFFFFFFC \<and>
   \<not> get_pixel (oled 128 64 0 (replicate 1024 0)) 4 10 \<and>
   lit (ssd1306_draw_pixel (oled 128 64 0 (replicate 1024 0)) (0 - 0xFFFFFFFC) (0xFDEE44E3 + 0x0211BB27)) 4 10
     = Inr True"
  by (simp add: circle_eval pixel_eval)

text \<open>
  C6, amended. Take a round \<open>(i, j)\<close> of a circle of radius \<open>r\<close> up to \<open>2^32 - 512\<close> and
  a rotation from 0 to 3. If \<open>x - i\<close> underflows, the pixel calls for the mirrored points
  \<open>(x - i, _)\<close> return the display unchanged. If \<open>y - j\<close> underflows, the calls for the
  mirrored points \<open>(_, y - j)\<close> return the display unchanged at rotations 0, 2 and 3, and at
  rotation 1 on a display with \<open>width \<le> height + width / 2\<close> (such as 128x64). This holds
  for \<open>ssd1306_draw_pixel\<close> and for \<open>ssd1306_clear_pixel\<close>.
\<close>

theorem wrapped_mirror_rejected:
  assumes "rotation p \<le> 3" and "i < r" and "j < r" and "r \<le> 0xFFFFFE00"
  shows "(x < i \<longrightarrow>
            ssd1306_draw_pixel p (x - i) y' = Inr p \<and> ssd1306_clear_pixel p (x - i) y' = Inr p) \<and>
         (y < j \<and> (rotation p = 1 \<longrightarrow> unat (width p) \<le> unat (height p) + unat (width p) div 2) \<longrightarrow>
            ssd1306_draw_pixel p x' (y - j) = Inr p \<and> ssd1306_clear_pixel p x' (y - j) = Inr p)"
  using wrapped_x_rejected [OF assms(1) _ assms(2,4)] wrapped_y_rejected [OF assms(1) _ assms(3,4)]
  by blast

theorem wrapped_mirror_rejected_witness:
  "rotation (oled 128 64 1 (replicate 1024 0)) \<le> 3 \<and> (3 :: uint32_t) < 5 \<and> (4 :: uint32_t) < 5 \<and>
   (5 :: uint32_t) \<le> 0xFFFFFE00 \<and> (1 :: uint32_t) < 3 \<and> (2 :: uint32_t) < 4 \<and>
   unat (width (oled 128 64 1 (replicate 1024 0)))
     \<le> unat (height (oled 128 64 1 (replicate 1024 0))) + unat (width (oled 128 64 1 (replicate 1024 0))) div 2 \<and>
   ssd1306_draw_pixel (oled 128 64 1 (replicate 1024 0)) (1 - 3) 6 = Inr (oled 128 64 1 (replicate 1024 0)) \<and>
   ssd1306_clear_pixel (oled 128 64 1 (replicate 1024 0)) (1 - 3) 6 = Inr (oled 128 64 1 (replicate 1024 0)) \<and>
   ssd1306_draw_pixel (oled 128 64 1 (replicate 1024 0)) 4 (2 - 4) = Inr (oled 128 64 1 (replicate 1024 0)) \<and>
   ssd1306_clear_pixel (oled 128 64 1 (replicate 1024 0)) 4 (2 - 4) = Inr (oled 128 64 1 (replicate 1024 0))"
proof -
  have h: "rotation (oled 128 64 1 (replicate 1024 0)) \<le> 3" "(3 :: uint32_t) < 5" "(4 :: uint32_t) < 5"
    "(5 :: uint32_t) \<le> 0xFFFFFE00"
    by (simp_all add: oled_def)
  have g: "(1 :: uint32_t) < 3" "(2 :: uint32_t) < 4"
    "unat (width (oled 128 64 1 (replicate 1024 0)))
       \<le> unat (height (oled 128 64 1 (replicate 1024 0))) + unat (width (oled 128 64 1 (replicate 1024 0))) div 2"
    by (simp_all add: oled_def)
  from wrapped_mirror_rejected [OF h, of 1 6 2 4] h g show ?thesis
    by simp
qed


end
